theory Spec2Isabelle
  imports Complex_Main "HOL-Library.Log_Nat" "HOL-Library.Word"
begin

section \<open>JavaScript numbers\<close>

text \<open>
  A JavaScript number is an IEEE 754 double: NaN, one of the two infinities, or a finite
  value, carried here as the rational it denotes. The two zeros are one value: the
  program only adds, subtracts, divides by 1000 and compares, and none of these tells
  them apart. Every arithmetic result is rounded to a double by \<open>to_double\<close>; a finite
  number \<open>Fin q\<close> of the program is one whose \<open>q\<close> is a double (\<open>is_double\<close> below).
\<close>

datatype number = NaN | NegInf | Fin rat | PosInf

text \<open>
  The power of two with an integer exponent, and the integer part of the binary logarithm
  of a positive rational.
\<close>

definition pow2 :: "int \<Rightarrow> rat" where
  "pow2 e = (if 0 \<le> e then 2 ^ nat e else 1 / 2 ^ nat (- e))"

definition ilog2 :: "rat \<Rightarrow> int" where
  "ilog2 a =
     (case quotient_of a of
        (n, d) \<Rightarrow> let k = bitlen n - bitlen d in if pow2 k \<le> a then k else k - 1)"

text \<open>Rounding to the nearest integer, a tie going to the even one.\<close>

definition round_even :: "rat \<Rightarrow> int" where
  "round_even x =
     (let f = \<lfloor>x\<rfloor>; r = x - of_int f
      in if r < 1 / 2 then f else if 1 / 2 < r then f + 1 else if even f then f else f + 1)"

text \<open>
  Rounding to the nearest double, ties to even. A double is a multiple \<open>m * 2 ^ e\<close> of the
  unit of its binade, with a mantissa \<open>m\<close> of at most 53 bits and \<open>e\<close> at least -1074 (the
  subnormal range). The result overflows to an infinity when it reaches \<open>2 ^ 1024\<close>: when
  \<open>e\<close> exceeds 971, or when \<open>m\<close> rounds up to \<open>2 ^ 53\<close> at \<open>e = 971\<close>.
\<close>

definition to_double :: "rat \<Rightarrow> number" where
  "to_double q =
     (if q = 0 then Fin 0
      else
        let a = \<bar>q\<bar>;
            e = max (ilog2 a - 52) (- 1074);
            m = round_even (a / pow2 e)
        in if 971 < e \<or> (e = 971 \<and> m = 2 ^ 53) then (if 0 < q then PosInf else NegInf)
           else Fin (if 0 < q then of_int m * pow2 e else - (of_int m * pow2 e)))"

text \<open>The operator \<open>+\<close> on numbers.\<close>

fun num_add :: "number \<Rightarrow> number \<Rightarrow> number" where
  "num_add NaN _ = NaN"
| "num_add _ NaN = NaN"
| "num_add PosInf NegInf = NaN"
| "num_add NegInf PosInf = NaN"
| "num_add PosInf _ = PosInf"
| "num_add _ PosInf = PosInf"
| "num_add NegInf _ = NegInf"
| "num_add _ NegInf = NegInf"
| "num_add (Fin a) (Fin b) = to_double (a + b)"

fun num_neg :: "number \<Rightarrow> number" where
  "num_neg NaN = NaN"
| "num_neg NegInf = PosInf"
| "num_neg PosInf = NegInf"
| "num_neg (Fin a) = Fin (- a)"

definition num_sub :: "number \<Rightarrow> number \<Rightarrow> number" where
  "num_sub a b = num_add a (num_neg b)"

text \<open>Division by the positive constant 1000 (the only division in the source).\<close>

fun num_div1000 :: "number \<Rightarrow> number" where
  "num_div1000 (Fin a) = to_double (a / 1000)"
| "num_div1000 x = x"

text \<open>The operator \<open>>\<close> on numbers: false as soon as one side is NaN.\<close>

fun num_gt :: "number \<Rightarrow> number \<Rightarrow> bool" where
  "num_gt NaN _ = False"
| "num_gt _ NaN = False"
| "num_gt NegInf _ = False"
| "num_gt _ PosInf = False"
| "num_gt PosInf _ = True"
| "num_gt _ NegInf = True"
| "num_gt (Fin a) (Fin b) = (b < a)"

section \<open>Strings and the built-in \<open>parseFloat\<close>\<close>

text \<open>A string is a list of 16-bit code units; \<open>ascii\<close> writes one from ASCII text.\<close>

type_synonym code_unit = "16 word"
type_synonym js_string = "code_unit list"

definition unit :: "char \<Rightarrow> code_unit" where
  "unit c = of_char c"

definition ascii :: "string \<Rightarrow> js_string" where
  "ascii s = map unit s"

text \<open>
  \<open>parseFloat\<close> skips leading white space (the white space and line terminator code
  points of the language) and reads the longest prefix that is a decimal literal: an
  optional sign, then \<open>Infinity\<close> or digits with an optional fraction and an optional
  exponent. The result is the double nearest to the value of that prefix, and NaN when no
  prefix is a literal.
\<close>

definition is_digit :: "code_unit \<Rightarrow> bool" where
  "is_digit u = (0x30 \<le> u \<and> u \<le> 0x39)"

definition is_space :: "code_unit \<Rightarrow> bool" where
  "is_space u =
     (u \<in> set [0x0009, 0x000A, 0x000B, 0x000C, 0x000D, 0x0020, 0x00A0, 0x1680, 0x2000,
               0x2001, 0x2002, 0x2003, 0x2004, 0x2005, 0x2006, 0x2007, 0x2008, 0x2009,
               0x200A, 0x2028, 0x2029, 0x202F, 0x205F, 0x3000, 0xFEFF])"

definition digit_val :: "code_unit \<Rightarrow> nat" where
  "digit_val u = unat u - 48"

definition digits_val :: "js_string \<Rightarrow> nat" where
  "digits_val ds = foldl (\<lambda>a u. 10 * a + digit_val u) 0 ds"

text \<open>The exponent part: \<open>e\<close> or \<open>E\<close>, an optional sign, at least one digit; 0 when absent.\<close>

definition parse_exponent :: "js_string \<Rightarrow> int" where
  "parse_exponent s =
     (case s of
        [] \<Rightarrow> 0
      | c # r \<Rightarrow>
          if c = unit CHR ''e'' \<or> c = unit CHR ''E'' then
            (case r of
               [] \<Rightarrow> 0
             | d # r' \<Rightarrow>
                 if d = unit CHR ''-'' then
                   (if takeWhile is_digit r' = [] then 0
                    else - int (digits_val (takeWhile is_digit r')))
                 else if d = unit CHR ''+'' then int (digits_val (takeWhile is_digit r'))
                 else int (digits_val (takeWhile is_digit r)))
          else 0)"

definition scale10 :: "rat \<Rightarrow> int \<Rightarrow> rat" where
  "scale10 m e = (if 0 \<le> e then m * 10 ^ nat e else m / 10 ^ nat (- e))"

definition parse_unsigned :: "js_string \<Rightarrow> number" where
  "parse_unsigned s =
     (if take 8 s = ascii ''Infinity'' then PosInf
      else
        let ip = takeWhile is_digit s;
            r1 = dropWhile is_digit s;
            fp = (case r1 of [] \<Rightarrow> []
                  | c # r \<Rightarrow> if c = unit CHR ''.'' then takeWhile is_digit r else []);
            r2 = (case r1 of [] \<Rightarrow> []
                  | c # r \<Rightarrow> if c = unit CHR ''.'' then dropWhile is_digit r else r1)
        in if ip = [] \<and> fp = [] then NaN
           else to_double
                  (scale10 (of_nat (digits_val (ip @ fp)))
                     (parse_exponent r2 - int (length fp))))"

definition parseFloat :: "js_string \<Rightarrow> number" where
  "parseFloat s =
     (case dropWhile is_space s of
        [] \<Rightarrow> NaN
      | c # r \<Rightarrow>
          if c = unit CHR ''-'' then num_neg (parse_unsigned r)
          else if c = unit CHR ''+'' then parse_unsigned r
          else parse_unsigned (c # r))"

section \<open>Source nodes\<close>

text \<open>
  The source node classes live outside \<open>videocontext.js\<close>; the orchestrator uses only
  their \<open>_stopTime\<close> field and the methods \<open>_isReady\<close>, \<open>_seek\<close>, \<open>_play\<close>, \<open>_pause\<close> and
  \<open>_update\<close>. A node is modelled by its stop time, the list of commands it has received,
  and its readiness as a function of that list: within a synchronous call nothing but
  the commands themselves can change what the poll \<open>_isReady\<close> answers.
\<close>

datatype command = Seek number | Play | Pause | Update number

record source_node =
  stopTime :: number
  readiness :: "command list \<Rightarrow> bool"
  received :: "command list"

definition src_isReady :: "source_node \<Rightarrow> bool" where
  "src_isReady s = readiness s (received s)"

definition src_send :: "command \<Rightarrow> source_node \<Rightarrow> source_node" where
  "src_send c s = s\<lparr>received := received s @ [c]\<rparr>"

section \<open>The orchestrator\<close>

datatype playback = Playing | Paused | Stalled | Ended | Broken

datatype render_call = Destination | Processing nat

text \<open>
  The fields of \<open>VideoContext\<close> that its methods read or write. Processing nodes are
  identified by an index; \<open>rendered\<close> records the \<open>_render\<close> calls made so far, in order.
\<close>

record video_context =
  sourceNodes :: "source_node list"
  processingNodes :: "nat list"
  currentTime :: number
  state :: playback
  rendered :: "render_call list"

text \<open>
  The argument of the \<open>currentTime\<close> setter: a number, a primitive string, or a \<open>String\<close>
  object (the two tests of the setter's condition). These are the values the interface
  takes; a value of another type would be stored as it is, and is outside this model.
\<close>

datatype time_arg = ArgNum number | ArgStr js_string | ArgStrObj js_string

definition coerce :: "time_arg \<Rightarrow> number" where
  "coerce a =
     (case a of ArgNum n \<Rightarrow> n | ArgStr s \<Rightarrow> parseFloat s | ArgStrObj s \<Rightarrow> parseFloat s)"

definition set_currentTime :: "time_arg \<Rightarrow> video_context \<Rightarrow> video_context" where
  "set_currentTime a ctx =
     (let t = coerce a
      in ctx\<lparr>sourceNodes := map (src_send (Seek t)) (sourceNodes ctx), currentTime := t\<rparr>)"

text \<open>The constructor: no nodes, time 0, paused.\<close>

definition new_context :: video_context where
  "new_context =
     \<lparr>sourceNodes = [], processingNodes = [], currentTime = Fin 0, state = Paused,
      rendered = []\<rparr>"

text \<open>The getter \<open>duration\<close>: a running maximum that starts at 0.\<close>

fun max_stop :: "number \<Rightarrow> source_node list \<Rightarrow> number" where
  "max_stop maxTime [] = maxTime"
| "max_stop maxTime (s # ss) =
     max_stop (if num_gt (stopTime s) maxTime then stopTime s else maxTime) ss"

definition duration :: "video_context \<Rightarrow> number" where
  "duration ctx = max_stop (Fin 0) (sourceNodes ctx)"

definition play :: "video_context \<Rightarrow> video_context" where
  "play ctx = ctx\<lparr>sourceNodes := map (src_send Play) (sourceNodes ctx), state := Playing\<rparr>"

definition pause :: "video_context \<Rightarrow> video_context" where
  "pause ctx = ctx\<lparr>sourceNodes := map (src_send Pause) (sourceNodes ctx), state := Paused\<rparr>"

text \<open>
  \<open>createVideoSourceNode\<close> appends the node it has constructed to \<open>_sourceNodes\<close>, and
  \<open>createEffectNode\<close> to \<open>_processingNodes\<close>; the constructed node is the argument here.
\<close>

definition createVideoSourceNode :: "source_node \<Rightarrow> video_context \<Rightarrow> video_context" where
  "createVideoSourceNode videoNode ctx = ctx\<lparr>sourceNodes := sourceNodes ctx @ [videoNode]\<rparr>"

definition createEffectNode :: "nat \<Rightarrow> video_context \<Rightarrow> video_context" where
  "createEffectNode effectNode ctx =
     ctx\<lparr>processingNodes := processingNodes ctx @ [effectNode]\<rparr>"

text \<open>\<open>_isStalled\<close>: true at the first source that answers not ready.\<close>

fun any_not_ready :: "source_node list \<Rightarrow> bool" where
  "any_not_ready [] = False"
| "any_not_ready (s # ss) = (if \<not> src_isReady s then True else any_not_ready ss)"

definition isStalled :: "video_context \<Rightarrow> bool" where
  "isStalled ctx = any_not_ready (sourceNodes ctx)"

text \<open>
  \<open>_update\<close>, in the four steps of its body. First the state is derived from the
  readiness of the sources, unless it is paused.
\<close>

definition reconcile :: "video_context \<Rightarrow> video_context" where
  "reconcile ctx =
     (if state ctx \<noteq> Paused then
        (if isStalled ctx then ctx\<lparr>state := Stalled\<rparr> else ctx\<lparr>state := Playing\<rparr>)
      else ctx)"

text \<open>Then the clock advances while playing, and playback ends past the duration.\<close>

definition advance :: "number \<Rightarrow> video_context \<Rightarrow> video_context" where
  "advance dt ctx =
     (if state ctx = Playing then
        (let c = ctx\<lparr>currentTime := num_add (currentTime ctx) dt\<rparr>
         in if num_gt (currentTime c) (duration c) then c\<lparr>state := Ended\<rparr> else c)
      else ctx)"

text \<open>The body of the loop over the sources, for one source.\<close>

definition update_source :: "playback \<Rightarrow> number \<Rightarrow> source_node \<Rightarrow> source_node" where
  "update_source st t sourceNode =
     (let s1 = src_send (Update t) sourceNode;
          s2 = (if st = Stalled then (if src_isReady s1 then src_send Pause s1 else s1) else s1);
          s3 = (if st = Paused then src_send Pause s2 else s2)
      in if st = Playing then src_send Play s3 else s3)"

definition dispatch :: "video_context \<Rightarrow> video_context" where
  "dispatch ctx =
     ctx\<lparr>sourceNodes := map (update_source (state ctx) (currentTime ctx)) (sourceNodes ctx)\<rparr>"

text \<open>Last the destination node renders, then each processing node.\<close>

definition render :: "video_context \<Rightarrow> video_context" where
  "render ctx =
     ctx\<lparr>rendered := rendered ctx @ Destination # map Processing (processingNodes ctx)\<rparr>"

definition ctx_update :: "number \<Rightarrow> video_context \<Rightarrow> video_context" where
  "ctx_update dt ctx =
     (if state ctx = Playing \<or> state ctx = Stalled \<or> state ctx = Paused then
        render (dispatch (advance dt (reconcile ctx)))
      else ctx)"

section \<open>The frame loop\<close>

text \<open>
  The module keeps the list of updateables and the time of the previous frame;
  \<open>requested\<close> counts the calls of \<open>requestAnimationFrame\<close>. The \<open>_update\<close> method of an
  updateable is a parameter: it returns the updated object and the exception it raised,
  if any. \<open>None\<close> stands for \<open>undefined\<close>, which is NaN in arithmetic.
\<close>

record 'u scheduler =
  updateables :: "'u list"
  previousTime :: "number option"
  requested :: nat

definition registerUpdateable :: "'u \<Rightarrow> 'u scheduler \<Rightarrow> 'u scheduler" where
  "registerUpdateable updateable s = s\<lparr>updateables := updateables s @ [updateable]\<rparr>"

fun to_number :: "number option \<Rightarrow> number" where
  "to_number None = NaN"
| "to_number (Some n) = n"

text \<open>The loop over the updateables: an exception leaves the loop at once.\<close>

fun run_updateables ::
  "(number \<Rightarrow> 'u \<Rightarrow> 'e option \<times> 'u) \<Rightarrow> number \<Rightarrow> 'u list \<Rightarrow> 'e option \<times> 'u list" where
  "run_updateables method dt [] = (None, [])"
| "run_updateables method dt (u # us) =
     (case method dt u of
        (Some e, u') \<Rightarrow> (Some e, u' # us)
      | (None, u') \<Rightarrow>
          (case run_updateables method dt us of (r, us') \<Rightarrow> (r, u' # us')))"

definition update ::
  "(number \<Rightarrow> 'u \<Rightarrow> 'e option \<times> 'u) \<Rightarrow> number option \<Rightarrow> 'u scheduler
     \<Rightarrow> 'e option \<times> 'u scheduler" where
  "update method time s =
     (let s1 = (if previousTime s = None then s\<lparr>previousTime := time\<rparr> else s);
          dt = num_div1000 (num_sub (to_number time) (to_number (previousTime s1)))
      in case run_updateables method dt (updateables s1) of
           (Some e, us) \<Rightarrow> (Some e, s1\<lparr>updateables := us\<rparr>)
         | (None, us) \<Rightarrow>
             (None, s1\<lparr>updateables := us, previousTime := time,
                        requested := Suc (requested s1)\<rparr>))"

text \<open>A \<open>VideoContext\<close> as an updateable; the model of its \<open>_update\<close> raises nothing.\<close>

definition context_method :: "number \<Rightarrow> video_context \<Rightarrow> string option \<times> video_context" where
  "context_method dt ctx = (None, ctx_update dt ctx)"

section \<open>Numeric strings\<close>

text \<open>
  What a numeric string is and which number it denotes, stated apart from the parser: the
  decimal literals of the language's string grammar. A literal is \<open>Infinity\<close>, digits with
  a point and optional fraction digits, a point with fraction digits, or digits alone;
  the last three may carry an exponent part. A numeric string is a literal with an
  optional sign, between optional runs of white space.
\<close>

datatype digit = D0 | D1 | D2 | D3 | D4 | D5 | D6 | D7 | D8 | D9

datatype sign = Unsigned | Positive | Negative

datatype exponent_part = No_exponent | Exponent bool sign digit "digit list"

datatype decimal_literal =
    Infinity_literal
  | Int_frac digit "digit list" "digit list" exponent_part
  | Frac_only digit "digit list" exponent_part
  | Int_only digit "digit list" exponent_part

fun digit_nat :: "digit \<Rightarrow> nat" where
  "digit_nat D0 = 0" | "digit_nat D1 = 1" | "digit_nat D2 = 2" | "digit_nat D3 = 3"
| "digit_nat D4 = 4" | "digit_nat D5 = 5" | "digit_nat D6 = 6" | "digit_nat D7 = 7"
| "digit_nat D8 = 8" | "digit_nat D9 = 9"

fun digit_unit :: "digit \<Rightarrow> code_unit" where
  "digit_unit D0 = unit CHR ''0''" | "digit_unit D1 = unit CHR ''1''"
| "digit_unit D2 = unit CHR ''2''" | "digit_unit D3 = unit CHR ''3''"
| "digit_unit D4 = unit CHR ''4''" | "digit_unit D5 = unit CHR ''5''"
| "digit_unit D6 = unit CHR ''6''" | "digit_unit D7 = unit CHR ''7''"
| "digit_unit D8 = unit CHR ''8''" | "digit_unit D9 = unit CHR ''9''"

text \<open>The value of a digit sequence, the leftmost digit weighing most.\<close>

fun digits_value :: "digit list \<Rightarrow> nat" where
  "digits_value [] = 0"
| "digits_value (d # ds) = digit_nat d * 10 ^ length ds + digits_value ds"

text \<open>The text of a numeric string.\<close>

fun sign_text :: "sign \<Rightarrow> js_string" where
  "sign_text Unsigned = []"
| "sign_text Positive = [unit CHR ''+'']"
| "sign_text Negative = [unit CHR ''-'']"

fun exponent_text :: "exponent_part \<Rightarrow> js_string" where
  "exponent_text No_exponent = []"
| "exponent_text (Exponent capital sg d ds) =
     unit (if capital then CHR ''E'' else CHR ''e'') # sign_text sg @ map digit_unit (d # ds)"

fun literal_text :: "decimal_literal \<Rightarrow> js_string" where
  "literal_text Infinity_literal = ascii ''Infinity''"
| "literal_text (Int_frac d ds fs ex) =
     map digit_unit (d # ds) @ unit CHR ''.'' # map digit_unit fs @ exponent_text ex"
| "literal_text (Frac_only d ds ex) = unit CHR ''.'' # map digit_unit (d # ds) @ exponent_text ex"
| "literal_text (Int_only d ds ex) = map digit_unit (d # ds) @ exponent_text ex"

definition numeric_string :: "js_string \<Rightarrow> sign \<Rightarrow> decimal_literal \<Rightarrow> js_string \<Rightarrow> js_string" where
  "numeric_string ws sg lit ws' = ws @ sign_text sg @ literal_text lit @ ws'"

text \<open>
  The number a numeric string denotes: the double nearest to the mathematical value of the
  literal, negated under a minus sign.
\<close>

fun exponent_value :: "exponent_part \<Rightarrow> int" where
  "exponent_value No_exponent = 0"
| "exponent_value (Exponent capital sg d ds) =
     (if sg = Negative then - int (digits_value (d # ds)) else int (digits_value (d # ds)))"

definition fraction_value :: "digit list \<Rightarrow> rat" where
  "fraction_value fs = of_nat (digits_value fs) / 10 ^ length fs"

fun literal_value :: "decimal_literal \<Rightarrow> number" where
  "literal_value Infinity_literal = PosInf"
| "literal_value (Int_frac d ds fs ex) =
     to_double ((of_nat (digits_value (d # ds)) + fraction_value fs)
                  * power_int 10 (exponent_value ex))"
| "literal_value (Frac_only d ds ex) =
     to_double (fraction_value (d # ds) * power_int 10 (exponent_value ex))"
| "literal_value (Int_only d ds ex) =
     to_double (of_nat (digits_value (d # ds)) * power_int 10 (exponent_value ex))"

definition numeric_value :: "sign \<Rightarrow> decimal_literal \<Rightarrow> number" where
  "numeric_value sg lit = (if sg = Negative then num_neg (literal_value lit) else literal_value lit)"

text \<open>
  A rational is a double when it is a multiple of the unit of its binade with a mantissa
  below \<open>2 ^ 53\<close> and does not overflow.
\<close>

definition is_double :: "rat \<Rightarrow> bool" where
  "is_double q =
     (q = 0 \<or>
      (let a = \<bar>q\<bar>; e = max (ilog2 a - 52) (- 1074)
       in of_int \<lfloor>a / pow2 e\<rfloor> = a / pow2 e \<and> a / pow2 e < 2 ^ 53 \<and> e \<le> 971))"

text \<open>A string at which a run of digits ends.\<close>

definition stops :: "js_string \<Rightarrow> bool" where
  "stops r = (case r of [] \<Rightarrow> True | u # _ \<Rightarrow> \<not> is_digit u)"

section \<open>Observations and sample configurations\<close>

text \<open>The commands a node has received between two observations of it.\<close>

definition commands_since :: "source_node \<Rightarrow> source_node \<Rightarrow> command list" where
  "commands_since before after = drop (length (received before)) (received after)"

text \<open>
  Sample nodes: one that always answers ready and one that never does. Sample contexts:
  two always-ready sources that stop at 10 and 20, and a ready source beside a blocked one.
\<close>

definition ready_source :: "number \<Rightarrow> source_node" where
  "ready_source st = \<lparr>stopTime = st, readiness = (\<lambda>_. True), received = []\<rparr>"

definition blocked_source :: "number \<Rightarrow> source_node" where
  "blocked_source st = \<lparr>stopTime = st, readiness = (\<lambda>_. False), received = []\<rparr>"

definition two_sources :: video_context where
  "two_sources =
     createVideoSourceNode (ready_source (Fin 20))
       (createVideoSourceNode (ready_source (Fin 10)) new_context)"

definition mixed_sources :: video_context where
  "mixed_sources =
     createVideoSourceNode (blocked_source (Fin 20))
       (createVideoSourceNode (ready_source (Fin 10)) new_context)"

text \<open>
  The context after the two sources have played to the end in ticks of 5 seconds, and the
  same context after the user has seeked back to 0. A context whose only source stops at
  -1.
\<close>

definition finished :: video_context where
  "finished =
     ctx_update (Fin 5) (ctx_update (Fin 5) (ctx_update (Fin 5) (ctx_update (Fin 5)
       (ctx_update (Fin 5) (play two_sources)))))"

definition rewound :: video_context where
  "rewound = set_currentTime (ArgNum (Fin 0)) finished"

text \<open>A playing context at time 2 ^ 53 whose only source stops at that time.\<close>

definition large_time :: video_context where
  "large_time =
     play (set_currentTime (ArgNum (Fin 9007199254740992))
       (createVideoSourceNode (ready_source (Fin 9007199254740992)) new_context))"

definition negative_stop :: video_context where
  "negative_stop = createVideoSourceNode (ready_source (Fin (- 1))) new_context"

text \<open>
  The time step a frame at \<open>time\<close> computes. A sample updateable: \<open>None\<close> raises when
  it is updated, \<open>Some n\<close> has been updated \<open>n\<close> times.
\<close>

definition frame_dt :: "number option \<Rightarrow> 'u scheduler \<Rightarrow> number" where
  "frame_dt time s =
     num_div1000 (num_sub (to_number time)
       (to_number (if previousTime s = None then time else previousTime s)))"

definition sample_method :: "number \<Rightarrow> nat option \<Rightarrow> string option \<times> nat option" where
  "sample_method dt u =
     (case u of None \<Rightarrow> (Some ''fault'', None) | Some n \<Rightarrow> (None, Some (Suc n)))"

definition sample_scheduler :: "nat option scheduler" where
  "sample_scheduler =
     \<lparr>updateables = [Some 0, None, Some 0], previousTime = Some (Fin 0), requested = 0\<rparr>"

lemmas sample_defs = ready_source_def two_sources_def createVideoSourceNode_def
  new_context_def

lemmas tick_defs = ctx_update_def render_def dispatch_def advance_def reconcile_def
  update_source_def isStalled_def src_isReady_def src_send_def duration_def Let_def

section \<open>Basic facts\<close>

lemma to_double_samples:
  "to_double 5 = Fin 5" "to_double 10 = Fin 10" "to_double 15 = Fin 15"
  "to_double 20 = Fin 20" "to_double 25 = Fin 25" "to_double 16 = Fin 16"
  "to_double 5000 = Fin 5000" "to_double (25 / 2) = Fin (25 / 2)"
  by code_simp+

lemma to_double_large: "to_double 9007199254740993 = Fin 9007199254740992"
  by code_simp

lemma to_double_tenths:
  "to_double (1 / 10) = Fin (3602879701896397 / 36028797018963968)"
  "to_double (9 / 10) = Fin (8106479329266893 / 9007199254740992)"
  "num_add (to_double (9 / 10)) (to_double (1 / 10)) = Fin 1"
  by code_simp+

lemma is_double_samples: "is_double 25" "is_double (25 / 2)" "\<not> is_double 9007199254740993"
  by code_simp+

lemma to_double_minus: "to_double (- q) = num_neg (to_double q)"
proof (cases "q = 0")
  case True
  then show ?thesis by (simp add: to_double_def)
next
  case False
  then consider "0 < q" | "q < 0" by linarith
  then show ?thesis
    by cases (auto simp: to_double_def Let_def)
qed

lemma round_even_int: "round_even (of_int m) = m"
  by (simp add: round_even_def)

lemma pow2_nonzero: "pow2 e \<noteq> 0"
  by (simp add: pow2_def)

lemma to_double_exact:
  assumes "is_double q"
  shows "to_double q = Fin q"
proof (cases "q = 0")
  case True
  then show ?thesis by (simp add: to_double_def)
next
  case False
  define e where "e = max (ilog2 \<bar>q\<bar> - 52) (- 1074)"
  define x where "x = \<bar>q\<bar> / pow2 e"
  define m where "m = \<lfloor>x\<rfloor>"
  from assms False have int: "of_int m = x" and small: "x < 2 ^ 53" and e: "e \<le> 971"
    by (simp_all add: is_double_def Let_def e_def x_def m_def)
  have r: "round_even x = m"
    using round_even_int [of m] by (simp add: int)
  have "of_int m < (2::rat) ^ 53" using small int by simp
  then have m53: "m \<noteq> 2 ^ 53" by auto
  have scaled: "of_int m * pow2 e = \<bar>q\<bar>"
    by (simp add: int x_def pow2_nonzero)
  have "to_double q = Fin (if 0 < q then of_int m * pow2 e else - (of_int m * pow2 e))"
    using False e m53 r unfolding to_double_def Let_def e_def [symmetric] x_def [symmetric]
    by simp
  then show ?thesis using False by (simp add: scaled)
qed

text \<open>
  Two facts about the rounding: \<open>ilog2\<close> is the integer part of the binary logarithm, and a
  finite result lies within half a unit of the rounded value.
\<close>

lemma pow2_power_int: "pow2 e = power_int 2 e"
  by (simp add: pow2_def power_int_def inverse_eq_divide power_one_over)

lemma pow2_pos: "0 < pow2 e"
  by (simp add: pow2_def)

lemma pow2_diff: "pow2 (x - y) = pow2 x / pow2 y"
  by (simp add: pow2_power_int power_int_diff)

lemma pow2_Suc: "pow2 (x + 1) = 2 * pow2 x"
  by (simp add: pow2_power_int power_int_add)

lemma bitlen_pow2_bounds:
  assumes "0 < n"
  shows "pow2 (bitlen n - 1) \<le> of_int n" and "of_int n < pow2 (bitlen n)"
proof -
  from assms have b: "0 < bitlen n" by (auto simp: bitlen_alt_def)
  from bitlen_bounds [OF assms] have lo: "2 ^ nat (bitlen n - 1) \<le> n" and hi: "n < 2 ^ nat (bitlen n)"
    by simp_all
  from lo have "(of_int (2 ^ nat (bitlen n - 1)) :: rat) \<le> of_int n"
    by (simp only: of_int_le_iff)
  with b show "pow2 (bitlen n - 1) \<le> of_int n" by (simp add: pow2_def)
  from hi have "(of_int n :: rat) < of_int (2 ^ nat (bitlen n))"
    by (simp only: of_int_less_iff)
  with b show "of_int n < pow2 (bitlen n)" by (simp add: pow2_def)
qed

lemma ilog2_bounds:
  assumes "0 < a"
  shows "pow2 (ilog2 a) \<le> a \<and> a < pow2 (ilog2 a + 1)"
proof -
  obtain n d where q: "quotient_of a = (n, d)" by (cases "quotient_of a")
  then have d: "0 < d" and a: "a = of_int n / of_int d"
    by (simp_all add: quotient_of_denom_pos quotient_of_div)
  with assms have n: "0 < n" by (simp add: zero_less_divide_iff)
  define k where "k = bitlen n - bitlen d"
  have dr: "(0::rat) < of_int d" using d by simp
  have up: "a < pow2 (k + 1)"
  proof -
    have "of_int n < pow2 (bitlen n)" by (rule bitlen_pow2_bounds [OF n])
    moreover have "pow2 (bitlen d - 1) \<le> of_int d" by (rule bitlen_pow2_bounds [OF d])
    ultimately have "of_int n * pow2 (bitlen d - 1) < pow2 (bitlen n) * of_int d"
      using dr pow2_pos [of "bitlen d - 1"] pow2_pos [of "bitlen n"]
      by (meson less_le_trans mult_le_cancel_left_pos mult_strict_right_mono)
    then have "a < pow2 (bitlen n) / pow2 (bitlen d - 1)"
      using dr pow2_pos [of "bitlen d - 1"] by (simp add: a field_simps)
    also have "\<dots> = pow2 (k + 1)"
      by (simp add: k_def pow2_diff [symmetric] algebra_simps)
    finally show ?thesis .
  qed
  have low: "pow2 (k - 1) \<le> a"
  proof -
    have "pow2 (bitlen n - 1) \<le> of_int n" by (rule bitlen_pow2_bounds [OF n])
    moreover have "of_int d < pow2 (bitlen d)" by (rule bitlen_pow2_bounds [OF d])
    ultimately have "pow2 (bitlen n - 1) * of_int d \<le> of_int n * pow2 (bitlen d)"
      using dr pow2_pos [of "bitlen d"] pow2_pos [of "bitlen n - 1"] n
      by (meson less_imp_le mult_mono of_int_0_le_iff order_less_imp_le)
    then have "pow2 (bitlen n - 1) / pow2 (bitlen d) \<le> a"
      using dr pow2_pos [of "bitlen d"] by (simp add: a field_simps)
    moreover have "pow2 (bitlen n - 1) / pow2 (bitlen d) = pow2 (k - 1)"
      by (simp add: k_def pow2_diff [symmetric] algebra_simps)
    ultimately show ?thesis by simp
  qed
  have il: "ilog2 a = (if pow2 k \<le> a then k else k - 1)"
    by (simp add: ilog2_def q k_def Let_def)
  show ?thesis
  proof (cases "pow2 k \<le> a")
    case True
    with il up show ?thesis by simp
  next
    case False
    with il low show ?thesis by simp
  qed
qed

lemma round_even_error: "\<bar>of_int (round_even x) - x\<bar> \<le> 1 / 2"
proof -
  have "of_int \<lfloor>x\<rfloor> \<le> x" "x < of_int \<lfloor>x\<rfloor> + 1" by linarith+
  then show ?thesis
    unfolding round_even_def Let_def by (auto simp: abs_if; linarith)
qed

lemma to_double_error:
  assumes "to_double q = Fin r"
  shows "\<bar>r - q\<bar> \<le> pow2 (max (ilog2 \<bar>q\<bar> - 52) (- 1074)) / 2"
proof (cases "q = 0")
  case True
  with assms show ?thesis by (simp add: to_double_def pow2_pos less_imp_le)
next
  case False
  define e where "e = max (ilog2 \<bar>q\<bar> - 52) (- 1074)"
  define m where "m = round_even (\<bar>q\<bar> / pow2 e)"
  from assms False have r: "r = (if 0 < q then of_int m * pow2 e else - (of_int m * pow2 e))"
    by (auto simp: to_double_def Let_def e_def m_def split: if_splits)
  have "\<bar>of_int m - \<bar>q\<bar> / pow2 e\<bar> \<le> 1 / 2"
    unfolding m_def by (rule round_even_error)
  then have "\<bar>of_int m - \<bar>q\<bar> / pow2 e\<bar> * pow2 e \<le> 1 / 2 * pow2 e"
    using pow2_pos [of e] by (simp only: mult_le_cancel_right_pos)
  moreover have "\<bar>of_int m - \<bar>q\<bar> / pow2 e\<bar> * pow2 e = \<bar>of_int m * pow2 e - \<bar>q\<bar>\<bar>"
  proof -
    have "\<bar>of_int m - \<bar>q\<bar> / pow2 e\<bar> * pow2 e = \<bar>(of_int m - \<bar>q\<bar> / pow2 e) * pow2 e\<bar>"
      using pow2_pos [of e] by (simp add: abs_mult)
    also have "(of_int m - \<bar>q\<bar> / pow2 e) * pow2 e = of_int m * pow2 e - \<bar>q\<bar>"
      using pow2_pos [of e] by (simp add: field_simps)
    finally show ?thesis .
  qed
  ultimately have "\<bar>of_int m * pow2 e - \<bar>q\<bar>\<bar> \<le> pow2 e / 2" by simp
  with False show ?thesis unfolding e_def [symmetric] r by (auto simp: abs_if split: if_splits)
qed

lemma digit_unit_facts:
  "is_digit (digit_unit d)"
  "digit_val (digit_unit d) = digit_nat d"
  "\<not> is_space (digit_unit d)"
  "digit_unit d \<noteq> unit CHR ''.''" "digit_unit d \<noteq> unit CHR ''e''"
  "digit_unit d \<noteq> unit CHR ''E''" "digit_unit d \<noteq> unit CHR ''+''"
  "digit_unit d \<noteq> unit CHR ''-''" "digit_unit d \<noteq> unit CHR ''I''"
  by (cases d; simp add: is_digit_def digit_val_def is_space_def unit_def)+

lemma mark_facts:
  "\<not> is_digit (unit CHR ''.'')" "\<not> is_digit (unit CHR ''e'')" "\<not> is_digit (unit CHR ''E'')"
  "\<not> is_digit (unit CHR ''+'')" "\<not> is_digit (unit CHR ''-'')"
  "\<not> is_space (unit CHR ''.'')" "\<not> is_space (unit CHR ''+'')" "\<not> is_space (unit CHR ''-'')"
  "\<not> is_space (unit CHR ''I'')"
  "unit CHR ''.'' \<noteq> unit CHR ''-''" "unit CHR ''.'' \<noteq> unit CHR ''+''"
  "unit CHR ''.'' \<noteq> unit CHR ''I''"
  "unit CHR ''I'' \<noteq> unit CHR ''-''" "unit CHR ''I'' \<noteq> unit CHR ''+''"
  "unit CHR ''e'' \<noteq> unit CHR ''.''" "unit CHR ''E'' \<noteq> unit CHR ''.''"
  "unit CHR ''+'' \<noteq> unit CHR ''-''"
  by (simp_all add: is_digit_def is_space_def unit_def)

lemma space_facts:
  assumes "is_space u"
  shows "\<not> is_digit u" "u \<noteq> unit CHR ''.''" "u \<noteq> unit CHR ''e''" "u \<noteq> unit CHR ''E''"
  using assms by (auto simp: is_space_def is_digit_def unit_def)

lemma foldl_digits:
  "foldl (\<lambda>a u. 10 * a + digit_val u) acc (map digit_unit ds) =
     acc * 10 ^ length ds + digits_value ds"
  by (induction ds arbitrary: acc) (simp_all add: digit_unit_facts algebra_simps)

lemma digits_val_text: "digits_val (map digit_unit ds) = digits_value ds"
  by (simp add: digits_val_def foldl_digits)

lemma digits_value_append:
  "digits_value (ds @ fs) = digits_value ds * 10 ^ length fs + digits_value fs"
  by (induction ds) (simp_all add: algebra_simps power_add)

lemma takeWhile_digits: "stops r \<Longrightarrow> takeWhile is_digit (map digit_unit ds @ r) = map digit_unit ds"
  by (induction ds) (auto simp: digit_unit_facts stops_def split: list.splits)

lemma dropWhile_digits: "stops r \<Longrightarrow> dropWhile is_digit (map digit_unit ds @ r) = r"
  by (induction ds) (auto simp: digit_unit_facts stops_def split: list.splits)

lemma stops_spaces: "list_all is_space ws \<Longrightarrow> stops ws"
  by (cases ws) (auto simp: stops_def space_facts)

lemma stops_exponent: "list_all is_space ws \<Longrightarrow> stops (exponent_text ex @ ws)"
  by (cases ex; cases ws) (auto simp: stops_def space_facts mark_facts)

lemma parse_exponent_spaces: "list_all is_space ws \<Longrightarrow> parse_exponent ws = 0"
  by (cases ws) (auto simp: parse_exponent_def space_facts)

lemma parse_exponent_text:
  assumes "list_all is_space ws"
  shows "parse_exponent (exponent_text ex @ ws) = exponent_value ex"
proof (cases ex)
  case No_exponent
  with assms show ?thesis by (simp add: parse_exponent_spaces)
next
  case (Exponent capital sg d ds)
  have tw: "takeWhile is_digit (map digit_unit (d # ds) @ ws) = map digit_unit (d # ds)"
    by (rule takeWhile_digits) (rule stops_spaces [OF assms])
  have dv: "digits_val (map digit_unit (d # ds)) = digits_value (d # ds)"
    by (rule digits_val_text)
  show ?thesis
  proof (cases sg)
    case Unsigned
    have "parse_exponent (exponent_text ex @ ws) =
        int (digits_val (takeWhile is_digit (map digit_unit (d # ds) @ ws)))"
      unfolding Exponent Unsigned
      by (simp add: parse_exponent_def digit_unit_facts)
    then show ?thesis unfolding tw dv by (simp add: Exponent Unsigned)
  next
    case Positive
    have "parse_exponent (exponent_text ex @ ws) =
        int (digits_val (takeWhile is_digit (map digit_unit (d # ds) @ ws)))"
      unfolding Exponent Positive
      by (simp add: parse_exponent_def mark_facts)
    then show ?thesis unfolding tw dv by (simp add: Exponent Positive)
  next
    case Negative
    have "parse_exponent (exponent_text ex @ ws) =
        (if takeWhile is_digit (map digit_unit (d # ds) @ ws) = [] then 0
         else - int (digits_val (takeWhile is_digit (map digit_unit (d # ds) @ ws))))"
      unfolding Exponent Negative
      by (simp add: parse_exponent_def)
    then show ?thesis unfolding tw dv by (simp add: Exponent Negative)
  qed
qed

lemma scale10_power_int: "scale10 m e = m * power_int 10 e"
  by (simp add: scale10_def power_int_def inverse_eq_divide power_one_over)

lemma mantissa_scale:
  "scale10 (of_nat (digits_value (ds @ fs))) (e - int (length fs)) =
     (of_nat (digits_value ds) + fraction_value fs) * power_int 10 e"
proof -
  define P :: rat where "P = power_int 10 e"
  define T :: rat where "T = 10 ^ length fs"
  have T: "T \<noteq> 0" by (simp add: T_def)
  have "power_int (10::rat) (e - int (length fs)) = P / T"
    by (simp add: power_int_diff P_def T_def)
  moreover have "(of_nat (digits_value ds) * T + of_nat (digits_value fs)) * (P / T) =
      (of_nat (digits_value ds) + of_nat (digits_value fs) / T) * P"
    using T by (simp add: field_simps)
  ultimately show ?thesis
    by (simp add: scale10_power_int digits_value_append fraction_value_def P_def T_def)
qed

lemma not_Infinity: "s \<noteq> [] \<Longrightarrow> hd s \<noteq> unit CHR ''I'' \<Longrightarrow> take 8 s \<noteq> ascii ''Infinity''"
  by (cases s) (auto simp: ascii_def)

lemma parse_unsigned_parts:
  assumes "take 8 s \<noteq> ascii ''Infinity''"
    and "takeWhile is_digit s = ip"
    and "dropWhile is_digit s = r1"
    and "(case r1 of [] \<Rightarrow> []
          | c # r \<Rightarrow> if c = unit CHR ''.'' then takeWhile is_digit r else []) = fp"
    and "(case r1 of [] \<Rightarrow> []
          | c # r \<Rightarrow> if c = unit CHR ''.'' then dropWhile is_digit r else r1) = r2"
    and "ip \<noteq> [] \<or> fp \<noteq> []"
  shows "parse_unsigned s =
     to_double (scale10 (of_nat (digits_val (ip @ fp))) (parse_exponent r2 - int (length fp)))"
  using assms by (auto simp: parse_unsigned_def Let_def)

lemma no_point:
  assumes "list_all is_space ws"
  shows "(case exponent_text ex @ ws of [] \<Rightarrow> []
          | c # r \<Rightarrow> if c = unit CHR ''.'' then takeWhile is_digit r else []) = []"
    and "(case exponent_text ex @ ws of [] \<Rightarrow> []
          | c # r \<Rightarrow> if c = unit CHR ''.'' then dropWhile is_digit r
                     else exponent_text ex @ ws) = exponent_text ex @ ws"
  using assms by (cases ex; cases ws; auto simp: mark_facts space_facts)+

lemma parse_unsigned_text:
  assumes ws: "list_all is_space ws"
  shows "parse_unsigned (literal_text lit @ ws) = literal_value lit"
proof (cases lit)
  case Infinity_literal
  then show ?thesis by (simp add: parse_unsigned_def ascii_def)
next
  case (Int_frac d ds fs ex)
  let ?r1 = "unit CHR ''.'' # map digit_unit fs @ exponent_text ex @ ws"
  have s: "literal_text lit @ ws = map digit_unit (d # ds) @ ?r1"
    by (simp add: Int_frac)
  have st1: "stops ?r1" by (simp add: stops_def mark_facts)
  have st2: "stops (exponent_text ex @ ws)" by (rule stops_exponent [OF ws])
  have ip: "takeWhile is_digit (literal_text lit @ ws) = map digit_unit (d # ds)"
    unfolding s by (rule takeWhile_digits [OF st1])
  have r1: "dropWhile is_digit (literal_text lit @ ws) = ?r1"
    unfolding s by (rule dropWhile_digits [OF st1])
  have fp: "(case ?r1 of [] \<Rightarrow> []
      | c # r \<Rightarrow> if c = unit CHR ''.'' then takeWhile is_digit r else []) = map digit_unit fs"
    using takeWhile_digits [OF st2, of fs] by simp
  have r2: "(case ?r1 of [] \<Rightarrow> []
      | c # r \<Rightarrow> if c = unit CHR ''.'' then dropWhile is_digit r else ?r1) =
        exponent_text ex @ ws"
    using dropWhile_digits [OF st2, of fs] by simp
  have ninf: "take 8 (literal_text lit @ ws) \<noteq> ascii ''Infinity''"
    by (rule not_Infinity) (simp_all add: s digit_unit_facts)
  have "parse_unsigned (literal_text lit @ ws) =
      to_double (scale10 (of_nat (digits_val (map digit_unit (d # ds) @ map digit_unit fs)))
        (parse_exponent (exponent_text ex @ ws) - int (length (map digit_unit fs))))"
    by (rule parse_unsigned_parts [OF ninf ip r1 fp r2]) simp
  also have "map digit_unit (d # ds) @ map digit_unit fs = map digit_unit ((d # ds) @ fs)"
    by simp
  finally show ?thesis
    unfolding digits_val_text parse_exponent_text [OF ws] length_map mantissa_scale
    by (simp add: Int_frac)
next
  case (Frac_only d ds ex)
  let ?r1 = "unit CHR ''.'' # map digit_unit (d # ds) @ exponent_text ex @ ws"
  have s: "literal_text lit @ ws = map digit_unit [] @ ?r1"
    by (simp add: Frac_only)
  have st1: "stops ?r1" by (simp add: stops_def mark_facts)
  have st2: "stops (exponent_text ex @ ws)" by (rule stops_exponent [OF ws])
  have ip: "takeWhile is_digit (literal_text lit @ ws) = map digit_unit []"
    unfolding s by (rule takeWhile_digits [OF st1])
  have r1: "dropWhile is_digit (literal_text lit @ ws) = ?r1"
    unfolding s by (rule dropWhile_digits [OF st1])
  have fp: "(case ?r1 of [] \<Rightarrow> []
      | c # r \<Rightarrow> if c = unit CHR ''.'' then takeWhile is_digit r else []) =
        map digit_unit (d # ds)"
    using takeWhile_digits [OF st2, of "d # ds"] by simp
  have r2: "(case ?r1 of [] \<Rightarrow> []
      | c # r \<Rightarrow> if c = unit CHR ''.'' then dropWhile is_digit r else ?r1) =
        exponent_text ex @ ws"
    using dropWhile_digits [OF st2, of "d # ds"] by simp
  have ninf: "take 8 (literal_text lit @ ws) \<noteq> ascii ''Infinity''"
    by (rule not_Infinity) (simp_all add: Frac_only mark_facts)
  have "parse_unsigned (literal_text lit @ ws) =
      to_double (scale10 (of_nat (digits_val (map digit_unit [] @ map digit_unit (d # ds))))
        (parse_exponent (exponent_text ex @ ws) - int (length (map digit_unit (d # ds)))))"
    by (rule parse_unsigned_parts [OF ninf ip r1 fp r2]) simp
  also have "map digit_unit [] @ map digit_unit (d # ds) = map digit_unit ([] @ (d # ds))"
    by simp
  finally show ?thesis
    unfolding digits_val_text parse_exponent_text [OF ws] length_map mantissa_scale
    by (simp add: Frac_only)
next
  case (Int_only d ds ex)
  have s: "literal_text lit @ ws = map digit_unit (d # ds) @ exponent_text ex @ ws"
    by (simp add: Int_only)
  have st2: "stops (exponent_text ex @ ws)" by (rule stops_exponent [OF ws])
  have ip: "takeWhile is_digit (literal_text lit @ ws) = map digit_unit (d # ds)"
    unfolding s by (rule takeWhile_digits [OF st2])
  have r1: "dropWhile is_digit (literal_text lit @ ws) = exponent_text ex @ ws"
    unfolding s by (rule dropWhile_digits [OF st2])
  have ninf: "take 8 (literal_text lit @ ws) \<noteq> ascii ''Infinity''"
    by (rule not_Infinity) (simp_all add: s digit_unit_facts)
  have "parse_unsigned (literal_text lit @ ws) =
      to_double (scale10 (of_nat (digits_val (map digit_unit (d # ds) @ [])))
        (parse_exponent (exponent_text ex @ ws) - int (length ([]::js_string))))"
    by (rule parse_unsigned_parts [OF ninf ip r1 no_point [OF ws]]) simp
  also have "map digit_unit (d # ds) @ [] = map digit_unit ((d # ds) @ [])"
    by simp
  also have "int (length ([]::js_string)) = int (length ([]::digit list))"
    by simp
  finally show ?thesis
    unfolding digits_val_text parse_exponent_text [OF ws] mantissa_scale
    by (simp add: Int_only fraction_value_def)
qed

lemma dropWhile_spaces:
  "list_all is_space ws \<Longrightarrow> \<not> is_space u \<Longrightarrow> dropWhile is_space (ws @ u # r) = u # r"
  by (induction ws) auto

lemma parseFloat_numeric_string:
  assumes ws: "list_all is_space ws" and ws': "list_all is_space ws'"
  shows "parseFloat (numeric_string ws sg lit ws') = numeric_value sg lit"
proof -
  obtain u r where lt: "literal_text lit @ ws' = u # r"
    and u: "\<not> is_space u" "u \<noteq> unit CHR ''-''" "u \<noteq> unit CHR ''+''"
    by (cases lit) (auto simp: ascii_def digit_unit_facts mark_facts)
  show ?thesis
  proof (cases sg)
    case Unsigned
    have "dropWhile is_space (numeric_string ws sg lit ws') = u # r"
      unfolding numeric_string_def Unsigned using dropWhile_spaces [OF ws u(1)] lt by simp
    then have "parseFloat (numeric_string ws sg lit ws') = parse_unsigned (u # r)"
      using u by (simp add: parseFloat_def)
    then show ?thesis
      unfolding lt [symmetric] parse_unsigned_text [OF ws'] by (simp add: numeric_value_def Unsigned)
  next
    case Positive
    have "dropWhile is_space (numeric_string ws sg lit ws') = unit CHR ''+'' # u # r"
      unfolding numeric_string_def Positive
      using dropWhile_spaces [OF ws mark_facts(7)] lt by simp
    then have "parseFloat (numeric_string ws sg lit ws') = parse_unsigned (u # r)"
      by (simp add: parseFloat_def mark_facts)
    then show ?thesis
      unfolding lt [symmetric] parse_unsigned_text [OF ws'] by (simp add: numeric_value_def Positive)
  next
    case Negative
    have "dropWhile is_space (numeric_string ws sg lit ws') = unit CHR ''-'' # u # r"
      unfolding numeric_string_def Negative
      using dropWhile_spaces [OF ws mark_facts(8)] lt by simp
    then have "parseFloat (numeric_string ws sg lit ws') = num_neg (parse_unsigned (u # r))"
      by (simp add: parseFloat_def)
    then show ?thesis
      unfolding lt [symmetric] parse_unsigned_text [OF ws'] by (simp add: numeric_value_def Negative)
  qed
qed

lemma src_send_fields:
  "received (src_send c s) = received s @ [c]"
  "stopTime (src_send c s) = stopTime s"
  "readiness (src_send c s) = readiness s"
  by (simp_all add: src_send_def)

lemma update_source_received:
  "received (update_source st t s) =
     received s @ Update t #
       (case st of
          Stalled \<Rightarrow> if src_isReady (src_send (Update t) s) then [Pause] else []
        | Paused \<Rightarrow> [Pause]
        | Playing \<Rightarrow> [Play]
        | _ \<Rightarrow> [])"
  by (cases st) (simp_all add: update_source_def Let_def src_send_fields)

lemma update_source_stopTime: "stopTime (update_source st t s) = stopTime s"
  by (simp add: update_source_def Let_def src_send_fields)

lemma max_stop_map: "map stopTime xs = map stopTime ys \<Longrightarrow> max_stop m xs = max_stop m ys"
proof (induction xs arbitrary: ys m)
  case Nil
  then show ?case by simp
next
  case (Cons x xs)
  then obtain y ys' where ys: "ys = y # ys'" by (cases ys) auto
  with Cons.prems have "stopTime x = stopTime y" "map stopTime xs = map stopTime ys'" by auto
  with Cons.IH ys show ?case by simp
qed

lemma any_not_ready_iff: "any_not_ready ss = (\<exists>s\<in>set ss. \<not> src_isReady s)"
  by (induction ss) auto

lemma ctx_update_halted: "state ctx = Ended \<or> state ctx = Broken \<Longrightarrow> ctx_update dt ctx = ctx"
  by (auto simp: ctx_update_def)

lemma ctx_update_active:
  assumes "state ctx = Playing \<or> state ctx = Stalled \<or> state ctx = Paused"
  shows "state (ctx_update dt ctx) = state (advance dt (reconcile ctx))"
    and "currentTime (ctx_update dt ctx) = currentTime (advance dt (reconcile ctx))"
    and "sourceNodes (ctx_update dt ctx) =
           map (update_source (state (advance dt (reconcile ctx)))
                  (currentTime (advance dt (reconcile ctx)))) (sourceNodes ctx)"
    and "rendered (ctx_update dt ctx) =
           rendered ctx @ Destination # map Processing (processingNodes ctx)"
    and "processingNodes (ctx_update dt ctx) = processingNodes ctx"
  using assms
  by (auto simp: ctx_update_def render_def dispatch_def advance_def reconcile_def Let_def)

lemma reconcile_fields:
  "currentTime (reconcile ctx) = currentTime ctx"
  "sourceNodes (reconcile ctx) = sourceNodes ctx"
  "state (reconcile ctx) =
     (if state ctx = Paused then Paused else if isStalled ctx then Stalled else Playing)"
  by (simp_all add: reconcile_def)

lemma duration_reconcile: "duration (reconcile ctx) = duration ctx"
  by (simp add: duration_def reconcile_fields)

lemma advance_fields:
  "sourceNodes (advance dt c) = sourceNodes c"
  "currentTime (advance dt c) =
     (if state c = Playing then num_add (currentTime c) dt else currentTime c)"
  "state (advance dt c) =
     (if state c = Playing \<and> num_gt (num_add (currentTime c) dt) (duration c) then Ended
      else state c)"
  by (simp_all add: advance_def Let_def duration_def)

lemma duration_ctx_update: "duration (ctx_update dt ctx) = duration ctx"
proof (cases "state ctx = Playing \<or> state ctx = Stalled \<or> state ctx = Paused")
  case True
  have "map stopTime (sourceNodes (ctx_update dt ctx)) = map stopTime (sourceNodes ctx)"
    by (simp add: ctx_update_active(3)[OF True] update_source_stopTime)
  then show ?thesis unfolding duration_def by (rule max_stop_map)
next
  case False
  then show ?thesis by (simp add: ctx_update_def)
qed

lemma set_currentTime_fields:
  "currentTime (set_currentTime a ctx) = coerce a"
  "sourceNodes (set_currentTime a ctx) = map (src_send (Seek (coerce a))) (sourceNodes ctx)"
  "state (set_currentTime a ctx) = state ctx"
  by (simp_all add: set_currentTime_def Let_def)

lemma parseFloat_12_5: "parseFloat (ascii ''12.5'') = Fin (25 / 2)"
  by code_simp

lemma parseFloat_abc: "parseFloat (ascii ''abc'') = NaN"
  by code_simp

lemma ctx_update_length:
  "length (sourceNodes (ctx_update dt ctx)) = length (sourceNodes ctx)"
  by (simp add: ctx_update_def render_def dispatch_def advance_def reconcile_def Let_def)

lemma commands_since_update_source:
  "commands_since s (update_source st t s) =
     Update t #
       (case st of
          Stalled \<Rightarrow> if src_isReady (src_send (Update t) s) then [Pause] else []
        | Paused \<Rightarrow> [Pause]
        | Playing \<Rightarrow> [Play]
        | _ \<Rightarrow> [])"
  by (simp add: commands_since_def update_source_received)

lemma mixed_sources_fields:
  "sourceNodes (play mixed_sources) =
     [\<lparr>stopTime = Fin 10, readiness = (\<lambda>_. True), received = [Play]\<rparr>,
      \<lparr>stopTime = Fin 20, readiness = (\<lambda>_. False), received = [Play]\<rparr>]"
  "state (play mixed_sources) = Playing"
  "currentTime (play mixed_sources) = Fin 0"
  by (simp_all add: play_def mixed_sources_def blocked_source_def sample_defs src_send_def)

lemma two_sources_fields:
  "sourceNodes (play two_sources) =
     [\<lparr>stopTime = Fin 10, readiness = (\<lambda>_. True), received = [Play]\<rparr>,
      \<lparr>stopTime = Fin 20, readiness = (\<lambda>_. True), received = [Play]\<rparr>]"
  "state (play two_sources) = Playing"
  "currentTime (play two_sources) = Fin 0"
  by (simp_all add: play_def sample_defs src_send_def)

lemma finished_fields:
  "state finished = Ended"
  "currentTime finished = Fin 25"
  "rendered finished = [Destination, Destination, Destination, Destination, Destination]"
  "processingNodes finished = []"
  "map stopTime (sourceNodes finished) = [Fin 10, Fin 20]"
  by (simp_all add: finished_def play_def sample_defs tick_defs to_double_samples)

lemma rewound_fields:
  "state rewound = Ended"
  "currentTime rewound = Fin 0"
  "duration rewound = Fin 20"
  "isStalled rewound = False"
  by (simp_all add: rewound_def set_currentTime_def coerce_def finished_def play_def
      sample_defs tick_defs to_double_samples)

lemma playing_tick:
  assumes act: "state ctx = Playing \<or> state ctx = Stalled \<or> state ctx = Paused"
    and p: "state (reconcile ctx) = Playing"
  shows "currentTime (ctx_update dt ctx) = num_add (currentTime ctx) dt \<and>
     state (ctx_update dt ctx) =
       (if num_gt (num_add (currentTime ctx) dt) (duration ctx) then Ended else Playing) \<and>
     duration (ctx_update dt ctx) = duration ctx"
  by (simp add: ctx_update_active(1,2)[OF act] advance_fields p reconcile_fields(1)
      duration_reconcile duration_ctx_update)

lemma run_updateables_ok:
  "(\<forall>u\<in>set us. fst (method dt u) = None) \<Longrightarrow>
     run_updateables method dt us = (None, map (\<lambda>u. snd (method dt u)) us)"
  by (induction us) (auto split: prod.splits option.splits)

lemma run_updateables_fault:
  "(\<forall>u\<in>set us. fst (method dt u) = None) \<Longrightarrow> fst (method dt v) = Some e \<Longrightarrow>
     run_updateables method dt (us @ v # ws) =
       (Some e, map (\<lambda>u. snd (method dt u)) us @ snd (method dt v) # ws)"
  by (induction us) (auto split: prod.splits option.splits)

lemma update_unfold:
  "update method time s =
     (case run_updateables method (frame_dt time s) (updateables s) of
        (Some e, us) \<Rightarrow>
          (Some e, s\<lparr>updateables := us,
                      previousTime := (if previousTime s = None then time else previousTime s)\<rparr>)
      | (None, us) \<Rightarrow>
          (None, s\<lparr>updateables := us, previousTime := time, requested := Suc (requested s)\<rparr>))"
  by (auto simp: update_def frame_dt_def Let_def split: prod.splits option.splits)

lemma num_gt_irrefl: "\<not> num_gt a a"
  by (cases a) auto

lemma num_gt_chain: "\<not> num_gt a m \<Longrightarrow> num_gt x m \<Longrightarrow> \<not> num_gt a x"
  by (cases a; cases m; cases x) auto

lemma max_stop_keeps_bound: "\<not> num_gt a m \<Longrightarrow> \<not> num_gt a (max_stop m xs)"
  by (induction xs arbitrary: m) (auto dest: num_gt_chain)

lemma max_stop_upper: "s \<in> set xs \<Longrightarrow> \<not> num_gt (stopTime s) (max_stop m xs)"
proof (induction xs arbitrary: m)
  case Nil
  then show ?case by simp
next
  case (Cons x xs)
  show ?case
  proof (cases "s = x")
    case True
    have "\<not> num_gt (stopTime x) (if num_gt (stopTime x) m then stopTime x else m)"
      by (simp add: num_gt_irrefl)
    then show ?thesis using True by (simp add: max_stop_keeps_bound)
  next
    case False
    with Cons show ?thesis by simp
  qed
qed

lemma max_stop_attained: "max_stop m xs = m \<or> max_stop m xs \<in> stopTime ` set xs"
proof (induction xs arbitrary: m)
  case Nil
  then show ?case by simp
next
  case (Cons x xs)
  from Cons.IH [of "if num_gt (stopTime x) m then stopTime x else m"]
  show ?case by (auto split: if_splits)
qed

lemma max_stop_append: "max_stop m (xs @ ys) = max_stop (max_stop m xs) ys"
  by (induction xs arbitrary: m) auto

lemma max_stop_finite:
  "map stopTime xs = map Fin rs \<Longrightarrow> max_stop (Fin m) xs = Fin (Max (insert m (set rs)))"
proof (induction xs arbitrary: rs m)
  case Nil
  then show ?case by simp
next
  case (Cons x xs)
  then obtain r rs' where rs: "rs = r # rs'" by (cases rs) auto
  with Cons.prems have x: "stopTime x = Fin r" and t: "map stopTime xs = map Fin rs'" by auto
  have "max_stop (Fin m) (x # xs) = max_stop (Fin (max m r)) xs"
    using x by (simp add: max_def)
  also have "\<dots> = Fin (Max (insert (max m r) (set rs')))"
    by (rule Cons.IH [OF t])
  also have "Max (insert (max m r) (set rs')) = Max (insert m (set rs))"
    unfolding rs by (cases "set rs' = {}") (auto simp: max.assoc max.commute max.left_commute)
  finally show ?case .
qed

text \<open>
  Overflow, and \<open>parseFloat\<close> on some strings: rounding of a decimal fraction, a leading
  no-break space, a hexadecimal form, the empty string and a value beyond the doubles.
\<close>

lemma pow2_mono: "x \<le> y \<Longrightarrow> pow2 x \<le> pow2 y"
  by (simp add: pow2_power_int power_int_increasing)

lemma to_double_overflow:
  assumes "pow2 1024 \<le> q"
  shows "to_double q = PosInf"
proof -
  have q: "0 < q" using assms pow2_pos [of 1024] by linarith
  have "1023 < ilog2 q"
  proof (rule ccontr)
    assume "\<not> 1023 < ilog2 q"
    then have "ilog2 q + 1 \<le> 1024" by simp
    then have "pow2 (ilog2 q + 1) \<le> pow2 1024" by (rule pow2_mono)
    with ilog2_bounds [OF q] assms show False by linarith
  qed
  with q show ?thesis by (simp add: to_double_def Let_def)
qed

lemma big: "pow2 1024 \<le> 10 ^ 400"
  by (simp add: pow2_def)

lemma parseFloat_samples:
  "parseFloat (ascii ''0.1'') = Fin (3602879701896397 / 36028797018963968)"
  "parseFloat (0xA0 # ascii ''12.5'') = Fin (25 / 2)"
  "parseFloat (ascii ''0x10'') = Fin 0"
  "parseFloat [] = NaN"
  by code_simp+

lemma parseFloat_1e400: "parseFloat (ascii ''1e400'') = PosInf"
proof -
  have "parseFloat (ascii ''1e400'') =
      parseFloat (numeric_string [] Unsigned (Int_only D1 [] (Exponent False Unsigned D4 [D0, D0])) [])"
    by (simp add: numeric_string_def ascii_def)
  also have "\<dots> = numeric_value Unsigned (Int_only D1 [] (Exponent False Unsigned D4 [D0, D0]))"
    by (simp add: parseFloat_numeric_string)
  also have "\<dots> = to_double (10 ^ 400)"
    by (simp add: numeric_value_def)
  also have "\<dots> = PosInf"
    by (rule to_double_overflow [OF big])
  finally show ?thesis .
qed

section \<open>Seeking\<close>

text \<open>
  C8. For every numeric string (a decimal literal with an optional sign, between runs of
  white space) \<open>parseFloat\<close> returns the number the string denotes, so the setter called
  with the string equals the setter called with that number: the current time becomes
  the number, every source receives a seek to it as its next command, and the playback
  state is untouched. In general the setter treats a string, primitive or object, as the
  number \<open>parseFloat\<close> reads from it. The string \<open>"12.5"\<close> is the numeric string of the
  literal 12.5 and denotes 12.5: the current time becomes 12.5 and every source receives
  \<open>seek(12.5)\<close>.
\<close>

theorem setCurrentTime_numeric_string:
  "(list_all is_space ws \<and> list_all is_space ws' \<longrightarrow>
      parseFloat (numeric_string ws sg lit ws') = numeric_value sg lit \<and>
      set_currentTime (ArgStr (numeric_string ws sg lit ws')) ctx =
        set_currentTime (ArgNum (numeric_value sg lit)) ctx \<and>
      currentTime (set_currentTime (ArgStr (numeric_string ws sg lit ws')) ctx) =
        numeric_value sg lit \<and>
      map received (sourceNodes (set_currentTime (ArgStr (numeric_string ws sg lit ws')) ctx)) =
        map (\<lambda>n. received n @ [Seek (numeric_value sg lit)]) (sourceNodes ctx) \<and>
      state (set_currentTime (ArgStr (numeric_string ws sg lit ws')) ctx) = state ctx) \<and>
   set_currentTime (ArgStr s) ctx = set_currentTime (ArgNum (parseFloat s)) ctx \<and>
   set_currentTime (ArgStrObj s) ctx = set_currentTime (ArgNum (parseFloat s)) ctx \<and>
   numeric_string [] Unsigned (Int_frac D1 [D2] [D5] No_exponent) [] = ascii ''12.5'' \<and>
   numeric_value Unsigned (Int_frac D1 [D2] [D5] No_exponent) = Fin (25 / 2) \<and>
   parseFloat (ascii ''12.5'') = Fin (25 / 2) \<and>
   currentTime (set_currentTime (ArgStr (ascii ''12.5'')) ctx) = Fin (25 / 2) \<and>
   map received (sourceNodes (set_currentTime (ArgStr (ascii ''12.5'')) ctx)) =
     map (\<lambda>n. received n @ [Seek (Fin (25 / 2))]) (sourceNodes ctx) \<and>
   state (set_currentTime (ArgStr (ascii ''12.5'')) ctx) = state ctx"
proof -
  have general: "parseFloat (numeric_string ws sg lit ws') = numeric_value sg lit"
    if "list_all is_space ws" "list_all is_space ws'"
    using that by (rule parseFloat_numeric_string)
  have same: "set_currentTime (ArgStr s) ctx = set_currentTime (ArgNum (parseFloat s)) ctx"
    "set_currentTime (ArgStrObj s) ctx = set_currentTime (ArgNum (parseFloat s)) ctx" for s
    by (simp_all add: set_currentTime_def coerce_def)
  have tx: "numeric_string [] Unsigned (Int_frac D1 [D2] [D5] No_exponent) [] = ascii ''12.5''"
    by (simp add: numeric_string_def ascii_def)
  have "numeric_value Unsigned (Int_frac D1 [D2] [D5] No_exponent) =
      parseFloat (numeric_string [] Unsigned (Int_frac D1 [D2] [D5] No_exponent) [])"
    by (simp add: parseFloat_numeric_string)
  then have val: "numeric_value Unsigned (Int_frac D1 [D2] [D5] No_exponent) = Fin (25 / 2)"
    by (simp only: tx parseFloat_12_5)
  show ?thesis
    using general same(1) [of "numeric_string ws sg lit ws'"]
    by (simp add: same tx val parseFloat_12_5 set_currentTime_fields coerce_def
        src_send_fields)
qed

theorem setCurrentTime_numeric_string_witness:
  "list_all is_space [0x20, 0xA0] \<and> list_all is_space [0x0A] \<and>
   numeric_string [0x20, 0xA0] Negative
       (Int_frac D1 [D2] [D5] (Exponent False Positive D1 [])) [0x0A] =
     0x20 # 0xA0 # ascii ''-12.5e+1'' @ [0x0A] \<and>
   numeric_value Negative (Int_frac D1 [D2] [D5] (Exponent False Positive D1 [])) =
     Fin (- 125) \<and>
   currentTime
       (set_currentTime (ArgStr (0x20 # 0xA0 # ascii ''-12.5e+1'' @ [0x0A])) two_sources) =
     Fin (- 125) \<and>
   set_currentTime (ArgStr (ascii ''12.5'')) two_sources =
     set_currentTime (ArgNum (Fin (25 / 2))) two_sources \<and>
   currentTime (set_currentTime (ArgStr (ascii ''12.5'')) two_sources) = Fin (25 / 2) \<and>
   map received (sourceNodes (set_currentTime (ArgStr (ascii ''12.5'')) two_sources)) =
     [[Seek (Fin (25 / 2))], [Seek (Fin (25 / 2))]]"
proof -
  have sp: "list_all is_space [0x20, 0xA0] \<and> list_all is_space [0x0A]"
    by (simp add: is_space_def)
  have tx: "numeric_string [0x20, 0xA0] Negative
      (Int_frac D1 [D2] [D5] (Exponent False Positive D1 [])) [0x0A] =
     0x20 # 0xA0 # ascii ''-12.5e+1'' @ [0x0A]"
    by (simp add: numeric_string_def ascii_def)
  have pf: "parseFloat (0x20 # 0xA0 # ascii ''-12.5e+1'' @ [0x0A]) = Fin (- 125)"
    by code_simp
  note w = setCurrentTime_numeric_string [of "[0x20, 0xA0]" "[0x0A]" Negative
        "Int_frac D1 [D2] [D5] (Exponent False Positive D1 [])" two_sources "ascii ''12.5''"]
  from w sp have nv:
    "numeric_value Negative (Int_frac D1 [D2] [D5] (Exponent False Positive D1 [])) =
       Fin (- 125)"
    unfolding tx pf by simp
  from w sp show ?thesis
    unfolding tx pf nv [symmetric]
    by (simp add: sample_defs set_currentTime_def coerce_def Let_def src_send_def
        parseFloat_12_5 nv pf)
qed

text \<open>
  C3 as stated (a string that fails coercion makes the call fail and changes nothing)
  does not hold: the setter has no check and raises nothing. On two fresh sources at
  time 0, seeking to \<open>"abc"\<close> sets the current time to NaN and sends \<open>seek(NaN)\<close> to both
  sources.
\<close>

theorem setCurrentTime_non_numeric_counterexample:
  "currentTime two_sources = Fin 0 \<and>
   currentTime (set_currentTime (ArgStr (ascii ''abc'')) two_sources) = NaN \<and>
   map received (sourceNodes two_sources) = [[], []] \<and>
   map received (sourceNodes (set_currentTime (ArgStr (ascii ''abc'')) two_sources)) =
     [[Seek NaN], [Seek NaN]] \<and>
   set_currentTime (ArgStr (ascii ''abc'')) two_sources \<noteq> two_sources"
proof -
  have t: "currentTime (set_currentTime (ArgStr (ascii ''abc'')) two_sources) = NaN"
    by (simp add: set_currentTime_fields coerce_def parseFloat_abc)
  have r: "map received (sourceNodes (set_currentTime (ArgStr (ascii ''abc'')) two_sources)) =
     [[Seek NaN], [Seek NaN]]"
    by (simp add: set_currentTime_fields coerce_def parseFloat_abc sample_defs src_send_def)
  have z: "currentTime two_sources = Fin 0" "map received (sourceNodes two_sources) = [[], []]"
    by (simp_all add: sample_defs)
  from t z have "set_currentTime (ArgStr (ascii ''abc'')) two_sources \<noteq> two_sources"
    by auto
  with t r z show ?thesis by simp
qed

text \<open>
  C3, amended. For every string that \<open>parseFloat\<close> reads as NaN the call completes: the
  current time becomes NaN, every source receives \<open>seek(NaN)\<close>, and the playback state is
  unchanged.
\<close>

theorem setCurrentTime_non_numeric:
  "parseFloat s = NaN \<Longrightarrow>
     currentTime (set_currentTime (ArgStr s) ctx) = NaN \<and>
     map received (sourceNodes (set_currentTime (ArgStr s) ctx)) =
       map (\<lambda>n. received n @ [Seek NaN]) (sourceNodes ctx) \<and>
     state (set_currentTime (ArgStr s) ctx) = state ctx"
  by (simp add: set_currentTime_fields coerce_def src_send_fields)

theorem setCurrentTime_non_numeric_witness:
  "parseFloat (ascii ''abc'') = NaN \<and>
   currentTime (set_currentTime (ArgStr (ascii ''abc'')) (pause two_sources)) = NaN \<and>
   map received (sourceNodes (set_currentTime (ArgStr (ascii ''abc'')) (pause two_sources))) =
     [[Pause, Seek NaN], [Pause, Seek NaN]]"
  using setCurrentTime_non_numeric [of "ascii ''abc''" "pause two_sources"]
  by (simp add: parseFloat_abc pause_def sample_defs src_send_def)

section \<open>Duration\<close>

text \<open>
  C9 as stated (the duration equals the maximum stop time of the sources) does not hold
  for every set of sources: the running maximum starts at 0, so a context whose only
  source stops at -1 reports the duration 0, which is not the maximum stop time -1.
\<close>

theorem duration_counterexample:
  "map stopTime (sourceNodes negative_stop) = [Fin (- 1)] \<and>
   duration negative_stop = Fin 0 \<and>
   duration negative_stop \<noteq> Fin (Max (set [- 1]))"
  by (simp add: negative_stop_def sample_defs duration_def)

text \<open>
  C9, amended. The duration is the maximum of 0 and the stop times of the sources: it is
  0 without sources; for finite stop times it is the maximum of 0 and them, hence the
  maximum stop time as soon as one stop time is not negative; in general no stop time is
  greater than it and it is 0 or the stop time of a source. Adding a source whose stop
  time is greater than the duration makes that stop time the duration, which thereby
  increases; adding any other source leaves the duration as it is. The class has no
  operation that removes a source; a context left without sources is the first case.
\<close>

theorem duration_max_stop:
  "(sourceNodes ctx = [] \<longrightarrow> duration ctx = Fin 0) \<and>
   (map stopTime (sourceNodes ctx) = map Fin rs \<longrightarrow>
      duration ctx = Fin (Max (insert 0 (set rs))) \<and>
      ((\<exists>r\<in>set rs. 0 \<le> r) \<longrightarrow> duration ctx = Fin (Max (set rs)))) \<and>
   (\<forall>s\<in>set (sourceNodes ctx). \<not> num_gt (stopTime s) (duration ctx)) \<and>
   (duration ctx = Fin 0 \<or> duration ctx \<in> stopTime ` set (sourceNodes ctx)) \<and>
   (num_gt (stopTime n) (duration ctx) \<longrightarrow>
      duration (createVideoSourceNode n ctx) = stopTime n \<and>
      num_gt (duration (createVideoSourceNode n ctx)) (duration ctx)) \<and>
   (\<not> num_gt (stopTime n) (duration ctx) \<longrightarrow>
      duration (createVideoSourceNode n ctx) = duration ctx)"
proof -
  have fin: "duration ctx = Fin (Max (insert 0 (set rs)))"
    if "map stopTime (sourceNodes ctx) = map Fin rs"
    using that unfolding duration_def by (rule max_stop_finite)
  have nonneg: "Max (insert 0 (set rs)) = Max (set rs)" if "\<exists>r\<in>set rs. 0 \<le> r"
  proof -
    from that obtain r where r: "r \<in> set rs" "0 \<le> r" by blast
    then have ne: "set rs \<noteq> {}" by auto
    have "0 \<le> Max (set rs)" using r by (meson List.finite_set Max_ge order_trans)
    with ne show ?thesis by (simp add: max_def)
  qed
  have add: "duration (createVideoSourceNode n ctx) =
      (if num_gt (stopTime n) (duration ctx) then stopTime n else duration ctx)"
    by (simp add: duration_def createVideoSourceNode_def max_stop_append)
  show ?thesis
    using fin nonneg add max_stop_attained [of "Fin 0" "sourceNodes ctx"]
    by (auto simp: duration_def max_stop_upper)
qed

theorem duration_max_stop_witness:
  "sourceNodes new_context = [] \<and> duration new_context = Fin 0 \<and>
   map stopTime (sourceNodes two_sources) = map Fin [10, 20] \<and>
   duration two_sources = Fin 20 \<and>
   num_gt (stopTime (ready_source (Fin 30))) (duration two_sources) \<and>
   duration (createVideoSourceNode (ready_source (Fin 30)) two_sources) = Fin 30 \<and>
   duration negative_stop = Fin 0"
  using duration_max_stop [of new_context "[]" "ready_source (Fin 30)"]
    duration_max_stop [of two_sources "[10, 20]" "ready_source (Fin 30)"]
    duration_max_stop [of negative_stop "[- 1]" "ready_source (Fin 30)"]
  by (simp add: negative_stop_def sample_defs duration_def)

section \<open>Ticks\<close>

text \<open>
  C1. A tick taken while playing or stalled first derives the state from the sources:
  \<open>_isStalled\<close> holds exactly when some source answers not ready. If it holds, the state is
  stalled after the reconciliation and at the end of the tick, and every source that
  answers ready when the loop polls it (after the time push) receives the time push and
  then a pause during the tick. If every source answers ready, the reconciliation sets
  the state to playing; the tick then ends in playing, or in ended when the advanced
  time exceeds the duration.
\<close>

theorem update_reconciles_readiness:
  "state ctx = Playing \<or> state ctx = Stalled \<Longrightarrow>
     (isStalled ctx \<longleftrightarrow> (\<exists>s\<in>set (sourceNodes ctx). \<not> src_isReady s)) \<and>
     (isStalled ctx \<longrightarrow>
        state (reconcile ctx) = Stalled \<and>
        state (ctx_update dt ctx) = Stalled \<and>
        length (sourceNodes (ctx_update dt ctx)) = length (sourceNodes ctx) \<and>
        (\<forall>i<length (sourceNodes ctx).
           src_isReady (src_send (Update (currentTime ctx)) (sourceNodes ctx ! i)) \<longrightarrow>
             commands_since (sourceNodes ctx ! i) (sourceNodes (ctx_update dt ctx) ! i) =
               [Update (currentTime ctx), Pause])) \<and>
     (\<not> isStalled ctx \<longrightarrow>
        state (reconcile ctx) = Playing \<and>
        state (ctx_update dt ctx) =
          (if num_gt (num_add (currentTime ctx) dt) (duration ctx) then Ended else Playing))"
proof -
  assume a: "state ctx = Playing \<or> state ctx = Stalled"
  then have act: "state ctx = Playing \<or> state ctx = Stalled \<or> state ctx = Paused" by blast
  from a have np: "state ctx \<noteq> Paused" by auto
  have 1: "isStalled ctx \<longleftrightarrow> (\<exists>s\<in>set (sourceNodes ctx). \<not> src_isReady s)"
    by (simp add: isStalled_def any_not_ready_iff)
  have 2: "state (reconcile ctx) = (if isStalled ctx then Stalled else Playing)"
    using np by (simp add: reconcile_fields)
  have 3: "isStalled ctx \<Longrightarrow> state (ctx_update dt ctx) = Stalled"
    using np by (simp add: ctx_update_active(1)[OF act] advance_fields reconcile_fields)
  have 4: "commands_since (sourceNodes ctx ! i) (sourceNodes (ctx_update dt ctx) ! i) =
               [Update (currentTime ctx), Pause]"
    if "isStalled ctx" "i < length (sourceNodes ctx)"
      "src_isReady (src_send (Update (currentTime ctx)) (sourceNodes ctx ! i))" for i
    using that np
    by (simp add: ctx_update_active(3)[OF act] advance_fields reconcile_fields
        commands_since_update_source)
  have 5: "\<not> isStalled ctx \<Longrightarrow> state (ctx_update dt ctx) =
          (if num_gt (num_add (currentTime ctx) dt) (duration ctx) then Ended else Playing)"
    using np
    by (simp add: ctx_update_active(1)[OF act] advance_fields reconcile_fields
        duration_reconcile)
  from 1 2 3 4 5 show ?thesis by (simp add: ctx_update_length)
qed

theorem update_reconciles_readiness_witness:
  "state (play mixed_sources) = Playing \<and>
   isStalled (play mixed_sources) \<and>
   state (ctx_update (Fin 5) (play mixed_sources)) = Stalled \<and>
   src_isReady (src_send (Update (Fin 0)) (sourceNodes (play mixed_sources) ! 0)) \<and>
   commands_since (sourceNodes (play mixed_sources) ! 0)
       (sourceNodes (ctx_update (Fin 5) (play mixed_sources)) ! 0) =
     [Update (Fin 0), Pause] \<and>
   state (play two_sources) = Playing \<and>
   \<not> isStalled (play two_sources) \<and>
   state (reconcile (play two_sources)) = Playing \<and>
   state (ctx_update (Fin 5) (play two_sources)) = Playing"
  using update_reconciles_readiness [of "play mixed_sources" "Fin 5"]
    update_reconciles_readiness [of "play two_sources" "Fin 5"]
  by (simp add: mixed_sources_fields two_sources_fields isStalled_def src_isReady_def
      src_send_def All_less_Suc duration_def to_double_samples)

text \<open>
  C2 as stated (the current time is advanced by exactly \<open>dt\<close>) does not hold for every
  tick: the sum is a double. In a playing context at time \<open>2 ^ 53\<close> whose source stops at
  \<open>2 ^ 53\<close>, a tick of 1 second leaves the time at \<open>2 ^ 53\<close>, because \<open>2 ^ 53 + 1\<close> is not a
  double, and the state stays playing although \<open>2 ^ 53 + 1\<close> exceeds the duration.
\<close>

theorem update_advances_time_counterexample:
  "state large_time = Playing \<and>
   state (reconcile large_time) = Playing \<and>
   currentTime large_time = Fin 9007199254740992 \<and>
   duration large_time = Fin 9007199254740992 \<and>
   currentTime (ctx_update (Fin 1) large_time) = Fin 9007199254740992 \<and>
   currentTime (ctx_update (Fin 1) large_time) \<noteq> Fin (9007199254740992 + 1) \<and>
   num_gt (Fin (9007199254740992 + 1)) (duration large_time) \<and>
   state (ctx_update (Fin 1) large_time) = Playing"
  by (simp add: large_time_def play_def set_currentTime_def coerce_def ready_source_def
      createVideoSourceNode_def new_context_def tick_defs to_double_large)

text \<open>
  C2, amended. In a tick whose state after reconciliation is playing, the current time
  becomes the double sum of the previous time and \<open>dt\<close>: for finite values the double
  nearest to their sum, which is the sum itself whenever the sum is a double. The state
  becomes ended exactly when the new time is greater than the duration (and stays playing
  otherwise), and the duration is unchanged. With two always-ready sources that stop at
  10 and 20, after \<open>play\<close> at time 0, ticks of 5 seconds give the times 5, 10, 15 and 20
  while playing and the state ended at 25; the duration is 20 at every point.
\<close>

theorem update_advances_time:
  "((state ctx = Playing \<or> state ctx = Stalled \<or> state ctx = Paused) \<and>
    state (reconcile ctx) = Playing \<longrightarrow>
      currentTime (ctx_update dt ctx) = num_add (currentTime ctx) dt \<and>
      (currentTime ctx = Fin a \<and> dt = Fin b \<longrightarrow>
         currentTime (ctx_update dt ctx) = to_double (a + b)) \<and>
      (currentTime ctx = Fin a \<and> dt = Fin b \<and> is_double (a + b) \<longrightarrow>
         currentTime (ctx_update dt ctx) = Fin (a + b)) \<and>
      state (ctx_update dt ctx) =
        (if num_gt (currentTime (ctx_update dt ctx)) (duration ctx) then Ended else Playing) \<and>
      duration (ctx_update dt ctx) = duration ctx) \<and>
   map (\<lambda>n. (currentTime ((ctx_update (Fin 5) ^^ n) (play two_sources)),
              state ((ctx_update (Fin 5) ^^ n) (play two_sources)),
              duration ((ctx_update (Fin 5) ^^ n) (play two_sources))))
       [0, 1, 2, 3, 4, 5] =
     [(Fin 0, Playing, Fin 20), (Fin 5, Playing, Fin 20), (Fin 10, Playing, Fin 20),
      (Fin 15, Playing, Fin 20), (Fin 20, Playing, Fin 20), (Fin 25, Ended, Fin 20)]"
proof -
  have scenario: "map (\<lambda>n. (currentTime ((ctx_update (Fin 5) ^^ n) (play two_sources)),
              state ((ctx_update (Fin 5) ^^ n) (play two_sources)),
              duration ((ctx_update (Fin 5) ^^ n) (play two_sources))))
       [0, 1, 2, 3, 4, 5] =
     [(Fin 0, Playing, Fin 20), (Fin 5, Playing, Fin 20), (Fin 10, Playing, Fin 20),
      (Fin 15, Playing, Fin 20), (Fin 20, Playing, Fin 20), (Fin 25, Ended, Fin 20)]"
    by (simp add: eval_nat_numeral play_def sample_defs tick_defs to_double_samples)
  have exact: "num_add (Fin a) (Fin b) = Fin (a + b)" if "is_double (a + b)"
    using that by (simp add: to_double_exact)
  have tick: "currentTime (ctx_update dt ctx) = num_add (currentTime ctx) dt \<and>
      state (ctx_update dt ctx) =
        (if num_gt (currentTime (ctx_update dt ctx)) (duration ctx) then Ended else Playing) \<and>
      duration (ctx_update dt ctx) = duration ctx"
    if "state ctx = Playing \<or> state ctx = Stalled \<or> state ctx = Paused"
      "state (reconcile ctx) = Playing"
    using playing_tick [OF that] by simp
  from scenario exact tick show ?thesis by auto
qed

theorem update_advances_time_witness:
  "state (play two_sources) = Playing \<and>
   state (reconcile (play two_sources)) = Playing \<and>
   currentTime (play two_sources) = Fin 0 \<and> is_double (0 + 25) \<and>
   currentTime (ctx_update (Fin 25) (play two_sources)) = Fin 25 \<and>
   state (ctx_update (Fin 25) (play two_sources)) = Ended \<and>
   state (ctx_update (Fin 20) (play two_sources)) = Playing \<and>
   duration (ctx_update (Fin 25) (play two_sources)) = Fin 20"
  using update_advances_time [of "play two_sources" "Fin 25" 0 25]
    update_advances_time [of "play two_sources" "Fin 20" 0 20]
  by (simp add: play_def sample_defs tick_defs to_double_samples is_double_samples)

text \<open>
  C10. In a tick whose state after reconciliation is stalled, a source that answers not
  ready when the loop polls it receives the time push and nothing else; a pause is sent
  exactly to the sources that answer ready, and no source receives a play.
\<close>

theorem stalled_tick_commands:
  "(state ctx = Playing \<or> state ctx = Stalled) \<and> state (reconcile ctx) = Stalled \<Longrightarrow>
     length (sourceNodes (ctx_update dt ctx)) = length (sourceNodes ctx) \<and>
     (\<forall>i<length (sourceNodes ctx).
        (\<not> src_isReady (src_send (Update (currentTime ctx)) (sourceNodes ctx ! i)) \<longrightarrow>
           commands_since (sourceNodes ctx ! i) (sourceNodes (ctx_update dt ctx) ! i) =
             [Update (currentTime ctx)]) \<and>
        (Pause \<in> set (commands_since (sourceNodes ctx ! i) (sourceNodes (ctx_update dt ctx) ! i))
           \<longleftrightarrow> src_isReady (src_send (Update (currentTime ctx)) (sourceNodes ctx ! i))) \<and>
        Play \<notin> set (commands_since (sourceNodes ctx ! i) (sourceNodes (ctx_update dt ctx) ! i)))"
proof -
  assume a: "(state ctx = Playing \<or> state ctx = Stalled) \<and> state (reconcile ctx) = Stalled"
  then have act: "state ctx = Playing \<or> state ctx = Stalled \<or> state ctx = Paused" by blast
  from a have st: "state (advance dt (reconcile ctx)) = Stalled"
    and t: "currentTime (advance dt (reconcile ctx)) = currentTime ctx"
    by (simp_all add: advance_fields reconcile_fields)
  show ?thesis
    by (simp add: ctx_update_active(3)[OF act] st t commands_since_update_source)
qed

theorem stalled_tick_commands_witness:
  "state (play mixed_sources) = Playing \<and>
   state (reconcile (play mixed_sources)) = Stalled \<and>
   \<not> src_isReady (src_send (Update (Fin 0)) (sourceNodes (play mixed_sources) ! 1)) \<and>
   commands_since (sourceNodes (play mixed_sources) ! 1)
       (sourceNodes (ctx_update (Fin 5) (play mixed_sources)) ! 1) = [Update (Fin 0)] \<and>
   Pause \<in> set (commands_since (sourceNodes (play mixed_sources) ! 0)
       (sourceNodes (ctx_update (Fin 5) (play mixed_sources)) ! 0))"
  using stalled_tick_commands [of "play mixed_sources" "Fin 5"]
  by (simp add: mixed_sources_fields reconcile_fields isStalled_def src_isReady_def src_send_def
      All_less_Suc)

text \<open>
  C7. A tick taken while paused, for any \<open>dt\<close>, keeps the current time and the paused state;
  each source receives during the tick the time push followed by one pause command, so
  exactly one pause.
\<close>

theorem paused_tick:
  "state ctx = Paused \<Longrightarrow>
     currentTime (ctx_update dt ctx) = currentTime ctx \<and>
     state (ctx_update dt ctx) = Paused \<and>
     length (sourceNodes (ctx_update dt ctx)) = length (sourceNodes ctx) \<and>
     (\<forall>i<length (sourceNodes ctx).
        commands_since (sourceNodes ctx ! i) (sourceNodes (ctx_update dt ctx) ! i) =
          [Update (currentTime ctx), Pause] \<and>
        count_list (commands_since (sourceNodes ctx ! i) (sourceNodes (ctx_update dt ctx) ! i))
          Pause = 1)"
  by (simp add: ctx_update_active reconcile_fields advance_fields update_source_received
      commands_since_def)

theorem paused_tick_witness:
  "state (pause two_sources) = Paused \<and>
   currentTime (ctx_update (Fin 5) (pause two_sources)) = Fin 0 \<and>
   state (ctx_update (Fin 5) (pause two_sources)) = Paused \<and>
   map received (sourceNodes (ctx_update (Fin 5) (pause two_sources))) =
     [[Pause, Update (Fin 0), Pause], [Pause, Update (Fin 0), Pause]]"
  using paused_tick [of "pause two_sources" "Fin 5"]
  by (simp add: pause_def sample_defs src_send_def ctx_update_active reconcile_fields
      advance_fields update_source_received)

text \<open>
  C5 as stated (a tick taken while ended or broken still renders) does not hold: the
  whole body of \<open>_update\<close>, the render pass included, runs only in the states playing,
  stalled and paused. The context that has played to its end records no further render
  call on the next tick, and neither does a broken context.
\<close>

theorem halted_tick_renders_counterexample:
  "state finished = Ended \<and>
   rendered (ctx_update (Fin 5) finished) = rendered finished \<and>
   rendered (ctx_update (Fin 5) finished) \<noteq>
     rendered finished @ Destination # map Processing (processingNodes finished) \<and>
   state (new_context\<lparr>state := Broken\<rparr>) = Broken \<and>
   rendered (ctx_update (Fin 5) (new_context\<lparr>state := Broken\<rparr>)) = []"
  by (simp add: ctx_update_halted finished_fields) (simp add: new_context_def)

text \<open>
  C5, amended. A tick taken while ended or broken changes nothing: no render pass, no
  command to a source, no change of time or state. A tick taken while playing, stalled
  or paused makes one render pass: the destination node, then the processing nodes in
  the order of their creation.
\<close>

theorem render_only_on_active_tick:
  "(state ctx = Ended \<or> state ctx = Broken \<longrightarrow> ctx_update dt ctx = ctx) \<and>
   (state ctx = Playing \<or> state ctx = Stalled \<or> state ctx = Paused \<longrightarrow>
      rendered (ctx_update dt ctx) =
        rendered ctx @ Destination # map Processing (processingNodes ctx))"
  using ctx_update_halted [of ctx dt] ctx_update_active(4) [of ctx dt] by blast

theorem render_only_on_active_tick_witness:
  "state finished = Ended \<and> ctx_update (Fin 5) finished = finished \<and>
   state (createEffectNode 7 (play two_sources)) = Playing \<and>
   rendered (ctx_update (Fin 5) (createEffectNode 7 (play two_sources))) =
     [Destination, Processing 7]"
  using render_only_on_active_tick [of finished "Fin 5"]
    render_only_on_active_tick [of "createEffectNode 7 (play two_sources)" "Fin 5"]
  by (simp add: finished_fields createEffectNode_def play_def sample_defs)

text \<open>
  C6 as stated (only broken is sticky; an ended context with ready sources has its state
  derived again by the next tick) does not hold. The sample context is ended, all its
  sources are ready and its time is back at 0: the reconciliation and time advance would
  give playing, but the tick leaves the context as it is, ended.
\<close>

theorem ended_rederived_counterexample:
  "state rewound = Ended \<and> \<not> isStalled rewound \<and>
   state (advance (Fin 5) (reconcile rewound)) = Playing \<and>
   state (ctx_update (Fin 5) rewound) = Ended \<and>
   ctx_update (Fin 5) rewound = rewound"
  by (simp add: ctx_update_halted rewound_fields advance_fields reconcile_fields
      duration_reconcile to_double_samples)

text \<open>
  C6, amended. Ended and broken are both sticky: a tick changes nothing in either. A tick
  keeps paused as well. Only playing and stalled are derived again by every tick, from
  the readiness of the sources and the comparison of the advanced time with the
  duration, whichever of the two the state was before.
\<close>

theorem tick_state_derivation:
  "(state ctx = Ended \<or> state ctx = Broken \<longrightarrow> ctx_update dt ctx = ctx) \<and>
   (state ctx = Paused \<longrightarrow> state (ctx_update dt ctx) = Paused) \<and>
   (state ctx = Playing \<or> state ctx = Stalled \<longrightarrow>
      state (ctx_update dt ctx) =
        (if isStalled ctx then Stalled
         else if num_gt (num_add (currentTime ctx) dt) (duration ctx) then Ended
         else Playing))"
proof -
  have 1: "state ctx = Paused \<Longrightarrow> state (ctx_update dt ctx) = Paused"
    by (simp add: ctx_update_active(1) advance_fields reconcile_fields)
  have 2: "state ctx = Playing \<or> state ctx = Stalled \<Longrightarrow> state (ctx_update dt ctx) =
        (if isStalled ctx then Stalled
         else if num_gt (num_add (currentTime ctx) dt) (duration ctx) then Ended
         else Playing)"
    by (auto simp: ctx_update_active(1) advance_fields reconcile_fields duration_reconcile)
  from 1 2 ctx_update_halted [of ctx dt] show ?thesis by blast
qed

theorem tick_state_derivation_witness:
  "state rewound = Ended \<and> ctx_update (Fin 5) rewound = rewound \<and>
   state (pause two_sources) = Paused \<and>
   state (ctx_update (Fin 5) (pause two_sources)) = Paused \<and>
   state (play mixed_sources) = Playing \<and> isStalled (play mixed_sources) \<and>
   state (ctx_update (Fin 5) (play mixed_sources)) = Stalled"
  using tick_state_derivation [of rewound "Fin 5"]
    tick_state_derivation [of "pause two_sources" "Fin 5"]
    tick_state_derivation [of "play mixed_sources" "Fin 5"]
  by (simp add: rewound_fields mixed_sources_fields pause_def sample_defs isStalled_def
      src_isReady_def src_send_def)

section \<open>Frames\<close>

text \<open>
  C4 as stated (an exception in one updateable neither stops the rescheduling nor keeps
  the later updateables from being updated) does not hold: \<open>update\<close> has no handler. With
  three updateables of which the second raises, the exception leaves \<open>update\<close>, the third
  updateable is not updated and no frame is requested.
\<close>

theorem update_fault_counterexample:
  "update sample_method (Some (Fin 16)) sample_scheduler =
     (Some ''fault'',
      \<lparr>updateables = [Some 1, None, Some 0], previousTime = Some (Fin 0), requested = 0\<rparr>)"
  by (simp add: update_def sample_scheduler_def sample_method_def Let_def)

text \<open>
  C4, amended. When an updateable raises in a frame, the updateables before it have been
  updated, the exception leaves \<open>update\<close>, the updateables after it are not updated and no
  next frame is requested. When no updateable raises, each one is updated once, in the
  order of registration, the time of the frame is stored and one next frame is requested.
\<close>

theorem update_fault_propagates:
  "(updateables s = us @ v # ws \<and>
    (\<forall>u\<in>set us. fst (method (frame_dt time s) u) = None) \<and>
    fst (method (frame_dt time s) v) = Some e \<longrightarrow>
      fst (update method time s) = Some e \<and>
      updateables (snd (update method time s)) =
        map (\<lambda>u. snd (method (frame_dt time s) u)) us @ snd (method (frame_dt time s) v) # ws \<and>
      requested (snd (update method time s)) = requested s) \<and>
   ((\<forall>u\<in>set (updateables s). fst (method (frame_dt time s) u) = None) \<longrightarrow>
      fst (update method time s) = None \<and>
      updateables (snd (update method time s)) =
        map (\<lambda>u. snd (method (frame_dt time s) u)) (updateables s) \<and>
      requested (snd (update method time s)) = Suc (requested s) \<and>
      previousTime (snd (update method time s)) = time)"
  by (auto simp: update_unfold run_updateables_ok run_updateables_fault)

theorem update_fault_propagates_witness:
  "updateables sample_scheduler = [Some 0] @ None # [Some 0] \<and>
   fst (sample_method (frame_dt (Some (Fin 16)) sample_scheduler) (Some 0)) = None \<and>
   fst (sample_method (frame_dt (Some (Fin 16)) sample_scheduler) None) = Some ''fault'' \<and>
   fst (update sample_method (Some (Fin 16)) sample_scheduler) = Some ''fault'' \<and>
   updateables (snd (update sample_method (Some (Fin 16)) sample_scheduler)) =
     [Some 1, None, Some 0] \<and>
   requested (snd (update sample_method (Some (Fin 16)) sample_scheduler)) = 0 \<and>
   fst (update context_method (Some (Fin 5000))
         \<lparr>updateables = [play two_sources], previousTime = Some (Fin 0), requested = 0\<rparr>) = None \<and>
   requested (snd (update context_method (Some (Fin 5000))
         \<lparr>updateables = [play two_sources], previousTime = Some (Fin 0), requested = 0\<rparr>)) = 1 \<and>
   map currentTime (updateables (snd (update context_method (Some (Fin 5000))
         \<lparr>updateables = [play two_sources], previousTime = Some (Fin 0), requested = 0\<rparr>))) =
     [Fin 5]"
  using update_fault_propagates [of sample_scheduler "[Some 0]" None "[Some 0]" sample_method
      "Some (Fin 16)" "''fault''"]
    update_fault_propagates [of
      "\<lparr>updateables = [play two_sources], previousTime = Some (Fin 0), requested = 0\<rparr>"
      "[]" "play two_sources" "[]" context_method "Some (Fin 5000)" "''x''"]
  by (simp add: sample_scheduler_def sample_method_def context_method_def frame_dt_def
      num_sub_def ctx_update_active advance_fields reconcile_fields play_def sample_defs
      isStalled_def src_isReady_def src_send_def duration_def to_double_samples)

end
